theory Spec2Isabelle
  imports Main "HOL-Library.Word" "HOL-Library.Sublist"
begin

unbundle bit_operations_syntax

section \<open>The plg:ldr service of core/hle/service/plgldr/plgldr.cpp\<close>

text \<open>
  A shallow embedding of \<^verbatim>\<open>Service::PLGLDR::PLG_LDR\<close>. The service keeps one static
  \<^verbatim>\<open>PluginLoaderContext\<close>; the lifecycle hooks and the request handlers read and
  write it. Every function below takes the state of the service and returns the new one.
  Code the file calls but does not contain (the 3GX image loader, the file utilities, the
  kernel's handle table, guest memory, the request marshalling) appears as a parameter of
  the model or as a definition marked as modelled from the specification.
\<close>

subsection \<open>Machine types and characters\<close>

type_synonym u8 = "8 word"
type_synonym u32 = "32 word"
type_synonym u64 = "64 word"

text \<open>C characters are \<^typ>\<open>char\<close> (one byte each); a \<^verbatim>\<open>std::string\<close> and a
  \<^verbatim>\<open>char\<close> array are both \<^typ>\<open>char list\<close>.\<close>

definition NUL :: char where
  "NUL = CHR 0x00"

definition backslash :: char where
  "backslash = CHR 0x5C"

definition slash :: char where
  "slash = CHR ''/''"

text \<open>\<^verbatim>\<open>std::string(const char*)\<close>: the characters before the first terminator. The
  \<^verbatim>\<open>path\<close> field is zero-filled at start and \<^verbatim>\<open>SetLoadSettings\<close> always stores a
  terminator inside it, so the read ends inside
  the array.\<close>

definition c_str :: "char list \<Rightarrow> string" where
  "c_str cs = takeWhile (\<lambda>c. c \<noteq> NUL) cs"

text \<open>\<^verbatim>\<open>std::string::ends_with\<close>.\<close>

definition ends_with :: "string \<Rightarrow> string \<Rightarrow> bool" where
  "ends_with s suf = (length suf \<le> length s \<and> drop (length s - length suf) s = suf)"

text \<open>\<^verbatim>\<open>fmt::format("{:016X}", v)\<close> and \<^verbatim>\<open>fmt::format("{:08x}", v)\<close>: zero-padded
  hexadecimal, most significant digit first.\<close>

definition hex_upper :: "nat \<Rightarrow> char" where
  "hex_upper n = ''0123456789ABCDEF'' ! n"

definition hex_lower :: "nat \<Rightarrow> char" where
  "hex_lower n = ''0123456789abcdef'' ! n"

definition format_016X :: "u64 \<Rightarrow> string" where
  "format_016X v = map (\<lambda>i. hex_upper (unat (drop_bit (4 * i) v AND 0xF))) (rev [0..<16])"

definition format_08x :: "u32 \<Rightarrow> string" where
  "format_08x v = map (\<lambda>i. hex_lower (unat (drop_bit (4 * i) v AND 0xF))) (rev [0..<8])"

subsection \<open>Result codes\<close>

datatype ResultCode =
    RESULT_SUCCESS
  | ERR_NOT_AUTHORIZED
  | ERR_NOT_IMPLEMENTED
  | ERR_OUT_OF_HANDLES

text \<open>\<^verbatim>\<open>Loader::ResultStatus\<close>: the service only compares it with \<^verbatim>\<open>Success\<close>.\<close>

datatype ResultStatus = Success | Error

text \<open>The two log lines of the file:
  \<^verbatim>\<open>LOG_CRITICAL(Service_PLGLDR, "Failed to launch {}: Checksum failed", plugin_path)\<close> and
  \<^verbatim>\<open>LOG_ERROR(Service_PLGLDR, "Plugin error - Code: {} - Title: {} - Description: {}", ...)\<close>,
  each kept with its arguments.\<close>

datatype Diagnostic =
    ChecksumFailed string
  | PluginError u32 string string

text \<open>An object in a handle table: an event (known by its position among the events
  created) or anything else.\<close>

datatype KObject = EventObject nat | OtherObject

text \<open>A store or a copy that would leave the array or buffer it is aimed at. The C++
  has no such outcome (it would be undefined behaviour); the model makes it a value so that
  its absence can be proved.\<close>

datatype Fault = OutOfBounds

subsection \<open>The plugin loader context\<close>

text \<open>\<^verbatim>\<open>PluginLoaderContext::PluginLoadParameters\<close>. The two array fields are lists whose
  length is the \<^verbatim>\<open>sizeof\<close> of the field: \<open>path\<close> is a \<^verbatim>\<open>char\<close> array, \<open>config\<close>
  the bytes of the configuration block. The header that fixes the two sizes is not part of
  the source at hand, so the sizes are whatever the lists' lengths are.\<close>

record PluginLoadParameters =
  no_flash :: bool
  low_title_Id :: u32
  path :: "char list"
  config :: "char list"

record PluginLoaderContext =
  is_enabled :: bool
  plugin_loaded :: bool
  is_default_path :: bool
  plugin_path :: string
  use_user_load_parameters :: bool
  user_load_parameters :: PluginLoadParameters
  memory_changed_handle :: u32

text \<open>A directory entry as \<^verbatim>\<open>FileUtil::ScanDirectoryTree\<close> reports it.\<close>

record FSTEntry =
  isDirectory :: bool
  physicalName :: string

text \<open>The launching process, as far as \<^verbatim>\<open>OnProcessRun\<close> looks at it: the address of
  its code segment, its program id and its memory, byte by byte.\<close>

record Process =
  code_segment_addr :: u32
  program_id :: u64
  process_memory :: "u32 \<Rightarrow> u8"

text \<open>What the service calls outside this file, fixed for the duration of one call:
  \<^item> \<open>sdmc_dir\<close>: \<^verbatim>\<open>FileUtil::GetUserPath(FileUtil::UserPath::SDMCDir)\<close>;
  \<^item> \<open>scan_dir d\<close>: the children that \<^verbatim>\<open>FileUtil::ScanDirectoryTree(d, entry)\<close> puts
    into \<^verbatim>\<open>entry.children\<close>, in the order of the enumeration;
  \<^item> \<open>file_exists\<close>: \<^verbatim>\<open>FileUtil::Exists\<close>;
  \<^item> \<open>plugin_image c\<close>: what \<^verbatim>\<open>Plugin3GXLoader::Load\<close> reports when it is handed
    the context \<open>c\<close> (for the process being launched);
  \<^item> \<open>handle_alloc t\<close>: what the handle table \<open>t\<close> of the current process answers to
    \<^verbatim>\<open>Create\<close>;
  \<^item> \<open>exe_load_addr\<close>: the constant \<^verbatim>\<open>Plugin3GXLoader::_3GX_exe_load_addr\<close>;
  \<^item> \<open>memory_read32\<close>: \<^verbatim>\<open>kernel.memory.Read32\<close>;
  \<^item> \<open>link_register\<close>: \<^verbatim>\<open>GetRunningCore().GetReg(14)\<close>;
  \<^item> \<open>plgldr_version_raw\<close>: \<^verbatim>\<open>Kernel::CoreVersion(1, 0, 0).raw\<close>.\<close>

record Env =
  sdmc_dir :: string
  scan_dir :: "string \<Rightarrow> FSTEntry list"
  file_exists :: "string \<Rightarrow> bool"
  plugin_image :: "PluginLoaderContext \<Rightarrow> ResultStatus"
  handle_alloc :: "(u32 \<times> KObject) list \<Rightarrow> ResultCode + u32"
  exe_load_addr :: u32
  memory_read32 :: "u32 \<Rightarrow> u32"
  link_register :: u32
  plgldr_version_raw :: u32

text \<open>The state the service reads and writes:
  \<^item> \<open>plgldr_context\<close> and \<open>allow_game_change\<close>: the static members of \<^verbatim>\<open>PLG_LDR\<close>;
  \<^item> \<open>plugin_loader_enabled\<close>: \<^verbatim>\<open>Settings::values.plugin_loader_enabled\<close>;
  \<^item> \<open>load_calls\<close>: the contexts handed to \<^verbatim>\<open>Plugin3GXLoader::Load\<close> so far, oldest
    first;
  \<^item> \<open>events\<close>: the names of the events made by \<^verbatim>\<open>KernelSystem::CreateEvent\<close> so far;
    an event is known by its position in this list;
  \<^item> \<open>handle_table\<close>: the handle table of the current process, handle and object;
  \<^item> \<open>signaled\<close>: the events \<^verbatim>\<open>Event::Signal\<close> was called on, oldest first;
  \<^item> \<open>diagnostics\<close>: the log lines written.\<close>

record System =
  plgldr_context :: PluginLoaderContext
  allow_game_change :: bool
  plugin_loader_enabled :: bool
  load_calls :: "PluginLoaderContext list"
  events :: "string list"
  handle_table :: "(u32 \<times> KObject) list"
  signaled :: "nat list"
  diagnostics :: "Diagnostic list"

subsection \<open>Construction\<close>

text \<open>The constructor registers the handlers and resets two fields of the context.\<close>

definition PLG_LDR :: "System \<Rightarrow> System" where
  "PLG_LDR s =
     s\<lparr>plgldr_context :=
         (plgldr_context s)\<lparr>memory_changed_handle := 0, plugin_loaded := False\<rparr>\<rparr>"

subsection \<open>OnProcessExit\<close>

definition OnProcessExit :: "Env \<Rightarrow> Process \<Rightarrow> System \<Rightarrow> System" where
  "OnProcessExit env process s =
     (if plugin_loaded (plgldr_context s) then
        (let status = memory_read32 env (exe_load_addr env - 0xC) in
         if status = 0 then
           s\<lparr>diagnostics := diagnostics s @ [ChecksumFailed (plugin_path (plgldr_context s))]\<rparr>
         else s)
      else s)"

subsection \<open>IsEnabled and SetEnabled\<close>

definition IsEnabled :: "System \<Rightarrow> System \<times> ResultCode \<times> bool" where
  "IsEnabled s = (s, RESULT_SUCCESS, is_enabled (plgldr_context s))"

text \<open>The argument is the word popped from the request.\<close>

definition SetEnabled :: "u32 \<Rightarrow> System \<Rightarrow> System \<times> ResultCode" where
  "SetEnabled word s =
     (let enabled = (word = 1);
          can_change = (enabled = is_enabled (plgldr_context s) \<or> allow_game_change s);
          s' = (if can_change then
                  s\<lparr>plgldr_context := (plgldr_context s)\<lparr>is_enabled := enabled\<rparr>,
                    plugin_loader_enabled := enabled\<rparr>
                else s)
      in (s', if can_change then RESULT_SUCCESS else ERR_NOT_AUTHORIZED))"

subsection \<open>SetLoadSettings\<close>

text \<open>Modelled from the spec: \<^verbatim>\<open>Kernel::MappedBuffer\<close> is not part of the source at hand.
  The specification calls a mapped buffer a caller-supplied, size-bounded memory region for
  bulk reads and writes. A buffer is the list of its bytes, \<^verbatim>\<open>GetSize()\<close> its length.
  \<^verbatim>\<open>Read(dest, offset, size)\<close> copies \<open>size\<close> bytes of the buffer, from \<open>offset\<close> on,
  to the start of \<open>dest\<close>; \<^verbatim>\<open>Write(src, offset, size)\<close> copies the first \<open>size\<close> bytes
  of \<open>src\<close> into the buffer at \<open>offset\<close>. A copy that would leave the buffer, the
  destination or the source is a fault.\<close>

definition MappedBuffer_Read ::
  "char list \<Rightarrow> char list \<Rightarrow> nat \<Rightarrow> nat \<Rightarrow> Fault + char list" where
  "MappedBuffer_Read buffer dest offset sz =
     (if length buffer < offset + sz \<or> length dest < sz then Inl OutOfBounds
      else Inr (take sz (drop offset buffer) @ drop sz dest))"

definition MappedBuffer_Write ::
  "char list \<Rightarrow> char list \<Rightarrow> nat \<Rightarrow> nat \<Rightarrow> Fault + char list" where
  "MappedBuffer_Write buffer src offset sz =
     (if length buffer < offset + sz \<or> length src < sz then Inl OutOfBounds
      else Inr (take offset buffer @ take sz src @ drop (offset + sz) buffer))"

text \<open>\<^verbatim>\<open>array[i] = c\<close> on a \<^verbatim>\<open>char\<close> array.\<close>

definition store_char :: "char list \<Rightarrow> nat \<Rightarrow> char \<Rightarrow> Fault + char list" where
  "store_char array i c = (if i < length array then Inr (array[i := c]) else Inl OutOfBounds)"

text \<open>\<^verbatim>\<open>sizeof(field) - 1\<close> in \<^verbatim>\<open>std::size_t\<close> (64 bits): zero wraps around.\<close>

definition size_minus_1 :: "nat \<Rightarrow> nat" where
  "size_minus_1 n = (if n = 0 then 2 ^ 64 - 1 else n - 1)"

text \<open>The arguments are the two words popped from the request and the two mapped buffers,
  in the order the handler pops them.\<close>

definition SetLoadSettings ::
  "u32 \<Rightarrow> u32 \<Rightarrow> char list \<Rightarrow> char list \<Rightarrow> System \<Rightarrow> Fault + (System \<times> ResultCode)" where
  "SetLoadSettings word1 word2 path_buffer config_buffer s =
     (let c = plgldr_context s;
          p = (user_load_parameters c)\<lparr>no_flash := (word1 = 1), low_title_Id := word2\<rparr>;
          n = min (size_minus_1 (length (path p))) (length path_buffer)
      in case MappedBuffer_Read path_buffer (path p) 0 n of
           Inl f \<Rightarrow> Inl f
         | Inr path1 \<Rightarrow>
             (case store_char path1 n NUL of
                Inl f \<Rightarrow> Inl f
              | Inr path2 \<Rightarrow>
                  (let m = min (length (config p)) (length config_buffer)
                   in case MappedBuffer_Read config_buffer (config p) 0 m of
                        Inl f \<Rightarrow> Inl f
                      | Inr config1 \<Rightarrow>
                          Inr (s\<lparr>plgldr_context :=
                                   c\<lparr>use_user_load_parameters := True,
                                     user_load_parameters :=
                                       p\<lparr>path := path2, config := config1\<rparr>\<rparr>\<rparr>,
                               RESULT_SUCCESS))))"

subsection \<open>DisplayErrorMessage, GetPLGLDRVersion, GetArbiter\<close>

definition DisplayErrorMessage ::
  "u32 \<Rightarrow> char list \<Rightarrow> char list \<Rightarrow> System \<Rightarrow> System \<times> ResultCode" where
  "DisplayErrorMessage error_code title desc s =
     (let title_data = title @ [NUL];
          desc_data = desc @ [NUL]
      in (s\<lparr>diagnostics := diagnostics s @
                [PluginError error_code (c_str title_data) (c_str desc_data)]\<rparr>,
          RESULT_SUCCESS))"

definition GetPLGLDRVersion :: "Env \<Rightarrow> System \<Rightarrow> System \<times> ResultCode \<times> u32" where
  "GetPLGLDRVersion env s = (s, RESULT_SUCCESS, plgldr_version_raw env)"

definition GetArbiter :: "System \<Rightarrow> System \<times> ResultCode" where
  "GetArbiter s = (s, ERR_NOT_IMPLEMENTED)"

subsection \<open>GetPluginPath\<close>

text \<open>\<^verbatim>\<open>haystack.find(needle)\<close> of \<^verbatim>\<open>std::string\<close>: the least position at which
  \<open>needle\<close> starts, \<open>None\<close> for \<^verbatim>\<open>npos\<close>. The empty needle is found at 0.\<close>

fun find_str :: "string \<Rightarrow> string \<Rightarrow> nat option" where
  "find_str [] needle = (if needle = [] then Some 0 else None)"
| "find_str (c # cs) needle =
     (if prefix needle (c # cs) then Some 0 else map_option Suc (find_str cs needle))"

text \<open>\<^verbatim>\<open>s.erase(pos, n)\<close> and \<^verbatim>\<open>std::replace(s.begin(), s.end(), old, new)\<close>.\<close>

definition erase :: "string \<Rightarrow> nat \<Rightarrow> nat \<Rightarrow> string" where
  "erase s pos n = take pos s @ drop (pos + n) s"

definition replace_char :: "char \<Rightarrow> char \<Rightarrow> string \<Rightarrow> string" where
  "replace_char old new s = map (\<lambda>c. if c = old then new else c) s"

text \<open>The string the handler builds from the storage root and the plugin path, before it
  writes it.\<close>

definition relative_plugin_path :: "string \<Rightarrow> string \<Rightarrow> string" where
  "relative_plugin_path root_sd plugin_path0 =
     (let plugin_path1 = (case find_str plugin_path0 root_sd of
                            Some it \<Rightarrow> erase plugin_path0 it (length root_sd)
                          | None \<Rightarrow> plugin_path0);
          plugin_path2 = replace_char backslash slash plugin_path1
      in if plugin_path2 = [] \<or> hd plugin_path2 \<noteq> slash then [slash] @ plugin_path2
         else plugin_path2)"

text \<open>The argument is the caller's mapped buffer; the result holds the buffer after the
  write. \<^verbatim>\<open>c_str()\<close> is the string followed by its terminator.\<close>

definition GetPluginPath ::
  "Env \<Rightarrow> char list \<Rightarrow> System \<Rightarrow> Fault + (System \<times> ResultCode \<times> char list)" where
  "GetPluginPath env buffer s =
     (let plugin_path3 = relative_plugin_path (sdmc_dir env) (plugin_path (plgldr_context s))
      in case MappedBuffer_Write buffer (plugin_path3 @ [NUL]) 0
                (min (length buffer) (length plugin_path3 + 1)) of
           Inl f \<Rightarrow> Inl f
         | Inr buffer' \<Rightarrow> Inr (s, RESULT_SUCCESS, buffer'))"



subsection \<open>GetMemoryChangedHandle and OnMemoryChanged\<close>

text \<open>Modelled from the spec: \<^verbatim>\<open>KernelSystem::CreateEvent\<close> and
  \<^verbatim>\<open>HandleTable::Create\<close> are not part of the source at hand. Creating an event adds a
  named notification object; registering an object asks the table for a handle
  (\<open>handle_alloc\<close>) and, when one is granted, enters the object under it; otherwise the
  table's error is the result.\<close>

definition CreateEvent :: "string \<Rightarrow> System \<Rightarrow> nat \<times> System" where
  "CreateEvent name s = (length (events s), s\<lparr>events := events s @ [name]\<rparr>)"

definition HandleTable_Create :: "Env \<Rightarrow> KObject \<Rightarrow> System \<Rightarrow> ResultCode + (u32 \<times> System)" where
  "HandleTable_Create env obj s =
     (case handle_alloc env (handle_table s) of
        Inl e \<Rightarrow> Inl e
      | Inr h \<Rightarrow> Inr (h, s\<lparr>handle_table := handle_table s @ [(h, obj)]\<rparr>))"

text \<open>\<^verbatim>\<open>ResultVal<Kernel::Handle>\<close> is a sum: an error code or a handle.\<close>

definition GetMemoryChangedHandle :: "Env \<Rightarrow> System \<Rightarrow> (ResultCode + u32) \<times> System" where
  "GetMemoryChangedHandle env s =
     (if memory_changed_handle (plgldr_context s) \<noteq> 0 then
        (Inr (memory_changed_handle (plgldr_context s)), s)
      else
        (let (evt, s1) = CreateEvent (''event-'' @ format_08x (link_register env)) s
         in case HandleTable_Create env (EventObject evt) s1 of
              Inl e \<Rightarrow> (Inl e, s1)
            | Inr (h, s2) \<Rightarrow>
                (let s3 = s2\<lparr>plgldr_context :=
                              (plgldr_context s2)\<lparr>memory_changed_handle := h\<rparr>\<rparr>
                 in (Inr (memory_changed_handle (plgldr_context s3)), s3))))"

text \<open>\<^verbatim>\<open>handle_table.Get<Kernel::Event>(h)\<close>: the event entered under \<open>h\<close>, if any.\<close>

definition HandleTable_Get_Event :: "(u32 \<times> KObject) list \<Rightarrow> u32 \<Rightarrow> nat option" where
  "HandleTable_Get_Event table h =
     (case map_of table h of
        Some (EventObject evt) \<Rightarrow> Some evt
      | _ \<Rightarrow> None)"

definition OnMemoryChanged :: "Process \<Rightarrow> System \<Rightarrow> System" where
  "OnMemoryChanged process s =
     (if \<not> plugin_loaded (plgldr_context s) \<or> memory_changed_handle (plgldr_context s) = 0
      then s
      else
        (case HandleTable_Get_Event (handle_table s) (memory_changed_handle (plgldr_context s)) of
           None \<Rightarrow> s
         | Some evt \<Rightarrow> s\<lparr>signaled := signaled s @ [evt]\<rparr>))"

subsection \<open>OnProcessRun\<close>

text \<open>Modelled from the spec: \<^verbatim>\<open>Memory::MemorySystem::ReadBlock\<close> is not part of the
  source at hand. The hook reads four bytes at an address of the process and takes them as
  a little-endian word (\<^verbatim>\<open>u32_le\<close>): the byte at the lowest address is the least
  significant. Addresses are 32-bit and wrap around.\<close>

definition read_u32_le :: "Process \<Rightarrow> u32 \<Rightarrow> u32" where
  "read_u32_le process addr =
     (let byte = (\<lambda>i. (ucast (process_memory process (addr + i)) :: u32))
      in byte 0 OR push_bit 8 (byte 1) OR push_bit 16 (byte 2) OR push_bit 24 (byte 3))"

definition is_homebrew :: "Process \<Rightarrow> bool" where
  "is_homebrew process =
     (let value1 = read_u32_le process (code_segment_addr process);
          value2 = read_u32_le process (code_segment_addr process + 32)
      in value1 = 0xEA000006 \<and> value2 = 0xE1A0400E)"

text \<open>Modelled from the spec: \<^verbatim>\<open>FileSys::Plugin3GXLoader::Load\<close> is not part of the source
  at hand. The specification says that a load attempt is handed the full context (with the
  process and the memory accessor), reports success or failure, and that success sets
  \<open>plugin_loaded\<close>. The report is \<open>plugin_image env\<close> of the context handed over; the
  call is recorded in \<open>load_calls\<close>.\<close>

definition Load :: "Env \<Rightarrow> System \<Rightarrow> ResultStatus \<times> System" where
  "Load env s =
     (let c = plgldr_context s;
          r = plugin_image env c
      in (r, s\<lparr>plgldr_context := (if r = Success then c\<lparr>plugin_loaded := True\<rparr> else c),
               load_calls := load_calls s @ [c]\<rparr>))"

text \<open>The loop over \<^verbatim>\<open>entry.children\<close>, with the test it applies to each child. The
  boolean tells whether the loop left the function (\<^verbatim>\<open>return\<close> after a successful
  load).\<close>

definition is_3gx_file :: "FSTEntry \<Rightarrow> bool" where
  "is_3gx_file child = (\<not> isDirectory child \<and> ends_with (physicalName child) ''.3gx'')"

fun try_children :: "Env \<Rightarrow> FSTEntry list \<Rightarrow> System \<Rightarrow> bool \<times> System" where
  "try_children env [] s = (False, s)"
| "try_children env (child # children) s =
     (if is_3gx_file child then
        (let s1 = s\<lparr>plgldr_context :=
                     (plgldr_context s)\<lparr>is_default_path := False,
                                         plugin_path := physicalName child\<rparr>\<rparr>;
             (r, s2) = Load env s1
         in if r = Success then (True, s2) else try_children env children s2)
      else try_children env children s)"

text \<open>The test that selects the staged override.\<close>

definition override_staged :: "Process \<Rightarrow> PluginLoaderContext \<Rightarrow> bool" where
  "override_staged process c =
     (use_user_load_parameters c \<and>
      low_title_Id (user_load_parameters c) = ucast (program_id process) \<and>
      (case path (user_load_parameters c) of [] \<Rightarrow> False | c0 # _ \<Rightarrow> c0 \<noteq> NUL))"

definition OnProcessRun :: "Env \<Rightarrow> Process \<Rightarrow> System \<Rightarrow> System" where
  "OnProcessRun env process s =
     (if \<not> is_enabled (plgldr_context s) \<or> plugin_loaded (plgldr_context s) then s
      else if is_homebrew process then s
      else if override_staged process (plgldr_context s) then
        (let plugin_file = sdmc_dir env @ c_str (tl (path (user_load_parameters (plgldr_context s))));
             s1 = s\<lparr>plgldr_context :=
                     (plgldr_context s)\<lparr>is_default_path := False, plugin_path := plugin_file\<rparr>\<rparr>
         in snd (Load env s1))
      else
        (let plugin_root = sdmc_dir env @ ''luma/plugins/'';
             plugin_tid = plugin_root @ format_016X (program_id process);
             (returned, s1) = try_children env (scan_dir env plugin_tid) s
         in if returned then s1
            else
              (let default_path = plugin_root @ ''default.3gx''
               in if file_exists env default_path then
                    snd (Load env
                          (s1\<lparr>plgldr_context :=
                               (plgldr_context s1)\<lparr>is_default_path := True,
                                                    plugin_path := default_path\<rparr>\<rparr>))
                  else s1)))"

text \<open>Names for stating what the hook hands to the loader: the context of an attempt
  on a directory entry, of the attempt on the override, and of the attempt on the default
  plugin.\<close>

definition candidate_context :: "PluginLoaderContext \<Rightarrow> FSTEntry \<Rightarrow> PluginLoaderContext" where
  "candidate_context c child = c\<lparr>is_default_path := False, plugin_path := physicalName child\<rparr>"

definition override_context :: "Env \<Rightarrow> PluginLoaderContext \<Rightarrow> PluginLoaderContext" where
  "override_context env c =
     c\<lparr>is_default_path := False,
       plugin_path := sdmc_dir env @ c_str (tl (path (user_load_parameters c)))\<rparr>"

definition default_context :: "Env \<Rightarrow> PluginLoaderContext \<Rightarrow> PluginLoaderContext" where
  "default_context env c =
     c\<lparr>is_default_path := True, plugin_path := sdmc_dir env @ ''luma/plugins/default.3gx''\<rparr>"

text \<open>The context after a load attempt on the context \<open>c\<close>.\<close>

definition after_load :: "Env \<Rightarrow> PluginLoaderContext \<Rightarrow> PluginLoaderContext" where
  "after_load env c = (if plugin_image env c = Success then c\<lparr>plugin_loaded := True\<rparr> else c)"

subsection \<open>The service as a whole\<close>

text \<open>One call into the service: the constructor, a lifecycle hook or a request with its
  arguments.\<close>

datatype Call =
    Construct
  | ProcessRun Process
  | ProcessExit Process
  | MemoryChanged Process
  | MemoryChangedHandle
  | CmdIsEnabled
  | CmdSetEnabled u32
  | CmdSetLoadSettings u32 u32 "char list" "char list"
  | CmdDisplayErrorMessage u32 "char list" "char list"
  | CmdGetPLGLDRVersion
  | CmdGetArbiter
  | CmdGetPluginPath "char list"

text \<open>The state after a call; \<open>None\<close> when the call faults.\<close>

fun step :: "Env \<Rightarrow> Call \<Rightarrow> System \<Rightarrow> System option" where
  "step env Construct s = Some (PLG_LDR s)"
| "step env (ProcessRun p) s = Some (OnProcessRun env p s)"
| "step env (ProcessExit p) s = Some (OnProcessExit env p s)"
| "step env (MemoryChanged p) s = Some (OnMemoryChanged p s)"
| "step env MemoryChangedHandle s = Some (snd (GetMemoryChangedHandle env s))"
| "step env CmdIsEnabled s = Some (fst (IsEnabled s))"
| "step env (CmdSetEnabled w) s = Some (fst (SetEnabled w s))"
| "step env (CmdSetLoadSettings w1 w2 pb cb) s =
     (case SetLoadSettings w1 w2 pb cb s of Inl f \<Rightarrow> None | Inr (s', r) \<Rightarrow> Some s')"
| "step env (CmdDisplayErrorMessage e t d) s = Some (fst (DisplayErrorMessage e t d s))"
| "step env CmdGetPLGLDRVersion s = Some (fst (GetPLGLDRVersion env s))"
| "step env CmdGetArbiter s = Some (fst (GetArbiter s))"
| "step env (CmdGetPluginPath b) s =
     (case GetPluginPath env b s of Inl f \<Rightarrow> None | Inr (s', r, b') \<Rightarrow> Some s')"

text \<open>A history: calls in order, each in the environment it meets. The service starts
  with its constructor.\<close>

fun run :: "(Env \<times> Call) list \<Rightarrow> System \<Rightarrow> System option" where
  "run [] s = Some s"
| "run ((env, call) # rest) s =
     (case step env call s of None \<Rightarrow> None | Some s' \<Rightarrow> run rest s')"

text \<open>The invariant of the context: a loaded plugin has a path.\<close>

definition loaded_has_path :: "System \<Rightarrow> bool" where
  "loaded_has_path s =
     (plugin_loaded (plgldr_context s) \<longrightarrow> plugin_path (plgldr_context s) \<noteq> [])"


subsection \<open>A concrete state\<close>

text \<open>A small state of the service for evaluating the functions above: an eight-byte
  \<open>path\<close> field, a four-byte \<open>config\<close> field, the plugin loader enabled, no plugin
  loaded, and games not allowed to switch the loader.\<close>

definition example_parameters :: PluginLoadParameters where
  "example_parameters =
     \<lparr>no_flash = False, low_title_Id = 0,
      path = [NUL, NUL, NUL, NUL, NUL, NUL, NUL, NUL],
      config = [NUL, NUL, NUL, NUL]\<rparr>"

definition example_context :: PluginLoaderContext where
  "example_context =
     \<lparr>is_enabled = True, plugin_loaded = False, is_default_path = False, plugin_path = [],
      use_user_load_parameters = False, user_load_parameters = example_parameters,
      memory_changed_handle = 0\<rparr>"

definition example_system :: System where
  "example_system =
     \<lparr>plgldr_context = example_context, allow_game_change = False,
      plugin_loader_enabled = True, load_calls = [], events = [], handle_table = [],
      signaled = [], diagnostics = []\<rparr>"

text \<open>Two processes with the same program id: one whose memory is all zero, one that
  starts with the two homebrew instructions. A storage root with a plugin directory for
  that program id and a default plugin; the loader accepts \<open>b.3gx\<close> and the file
  \<open>/sd/plugin\<close>. A second environment in which every load fails. States with an override
  staged for the program id, the loader enabled and disabled.\<close>

definition example_process :: Process where
  "example_process =
     \<lparr>code_segment_addr = 0x00100000, program_id = 0x0004000000000007,
      process_memory = (\<lambda>a. 0)\<rparr>"

definition homebrew_process :: Process where
  "homebrew_process =
     \<lparr>code_segment_addr = 0x00100000, program_id = 0x0004000000000007,
      process_memory =
        (\<lambda>a. if a = 0x00100000 then 0x06 else if a = 0x00100003 then 0xEA
             else if a = 0x00100020 then 0x0E else if a = 0x00100021 then 0x40
             else if a = 0x00100022 then 0xA0 else if a = 0x00100023 then 0xE1
             else 0)\<rparr>"

definition example_children :: "FSTEntry list" where
  "example_children =
     [\<lparr>isDirectory = True, physicalName = ''/sd/luma/plugins/0004000000000007/old.3gx''\<rparr>,
      \<lparr>isDirectory = False, physicalName = ''/sd/luma/plugins/0004000000000007/a.3gx''\<rparr>,
      \<lparr>isDirectory = False, physicalName = ''/sd/luma/plugins/0004000000000007/notes.txt''\<rparr>,
      \<lparr>isDirectory = False, physicalName = ''/sd/luma/plugins/0004000000000007/b.3gx''\<rparr>,
      \<lparr>isDirectory = False, physicalName = ''/sd/luma/plugins/0004000000000007/c.3gx''\<rparr>]"

definition example_env :: Env where
  "example_env =
     \<lparr>sdmc_dir = ''/sd/'',
      scan_dir = (\<lambda>d. if d = ''/sd/luma/plugins/0004000000000007'' then example_children
                      else []),
      file_exists = (\<lambda>f. f = ''/sd/luma/plugins/default.3gx''),
      plugin_image = (\<lambda>c. if plugin_path c = ''/sd/luma/plugins/0004000000000007/b.3gx''
                            \<or> plugin_path c = ''/sd/plugin''
                          then Success else Error),
      handle_alloc = (\<lambda>t. Inr (word_of_nat (length t) + 1)),
      exe_load_addr = 0x07000100,
      memory_read32 = (\<lambda>a. 0),
      link_register = 0x00100ABC,
      plgldr_version_raw = 0x01000000\<rparr>"

definition staged_system :: System where
  "staged_system =
     example_system\<lparr>plgldr_context := example_context
       \<lparr>use_user_load_parameters := True,
        user_load_parameters :=
          \<lparr>no_flash = True, low_title_Id = 7, path = ''/plugin'' @ [NUL],
           config = ''ab'' @ [NUL, NUL]\<rparr>\<rparr>\<rparr>"

definition disabled_system :: System where
  "disabled_system =
     staged_system\<lparr>plgldr_context := (plgldr_context staged_system)\<lparr>is_enabled := False\<rparr>\<rparr>"

definition failing_env :: Env where
  "failing_env = example_env\<lparr>plugin_image := (\<lambda>c. Error)\<rparr>"


text \<open>A history of the service: a request stages an override, the process is launched,
  a request tries to switch the loader off, the process exits.\<close>

definition example_history :: "(Env \<times> Call) list" where
  "example_history =
     [(example_env, CmdSetLoadSettings 1 7 ''/plugin'' ''ab''),
      (example_env, ProcessRun example_process),
      (failing_env, CmdSetEnabled 0),
      (failing_env, ProcessExit example_process)]"

section \<open>Properties\<close>

text \<open>
  Claim C9. \<^verbatim>\<open>OnProcessExit\<close> changes no field of the context: each of the seven
  fields, and so the context as a whole, is after the call what it was before. Nothing
  else of the state changes either, but for the log: the call appends one critical
  diagnostic that names the plugin path when a plugin is loaded and the status cell twelve
  bytes below the plugin's load address reads zero, and appends nothing otherwise.
\<close>

theorem OnProcessExit_frame:
  "(let s' = OnProcessExit env process s;
        c = plgldr_context s;
        c' = plgldr_context s'
    in is_enabled c' = is_enabled c \<and>
       plugin_loaded c' = plugin_loaded c \<and>
       plugin_path c' = plugin_path c \<and>
       is_default_path c' = is_default_path c \<and>
       use_user_load_parameters c' = use_user_load_parameters c \<and>
       user_load_parameters c' = user_load_parameters c \<and>
       memory_changed_handle c' = memory_changed_handle c \<and>
       c' = c \<and>
       s' = s\<lparr>diagnostics := diagnostics s'\<rparr> \<and>
       diagnostics s' =
         diagnostics s @
         (if plugin_loaded c \<and> memory_read32 env (exe_load_addr env - 0xC) = 0
          then [ChecksumFailed (plugin_path c)] else []))"
proof -
  have same: "plgldr_context (OnProcessExit env process s) = plgldr_context s"
    by (simp add: OnProcessExit_def Let_def)
  have rest: "OnProcessExit env process s =
      s\<lparr>diagnostics := diagnostics (OnProcessExit env process s)\<rparr>"
    by (simp add: OnProcessExit_def Let_def)
  have diag: "diagnostics (OnProcessExit env process s) =
      diagnostics s @
      (if plugin_loaded (plgldr_context s) \<and> memory_read32 env (exe_load_addr env - 0xC) = 0
       then [ChecksumFailed (plugin_path (plgldr_context s))] else [])"
    by (simp add: OnProcessExit_def Let_def)
  show ?thesis
    unfolding Let_def same
    using rest diag by simp
qed

text \<open>
  Claim C4. A \<^verbatim>\<open>SetEnabled\<close> request is permitted exactly when the requested value is
  the current \<open>is_enabled\<close> or \<open>allow_game_change\<close> holds. A permitted request
  answers success and stores the value in the context and in the persistent setting. Any
  other request answers \<open>ERR_NOT_AUTHORIZED\<close> and returns the state as it was, so the
  requested value is still not the current one, and repeating the request any number of
  times leaves the state as it was.
\<close>

theorem SetEnabled_authorization:
  "(let enabled = (w = 1);
        permitted = (enabled = is_enabled (plgldr_context s) \<or> allow_game_change s)
    in (permitted \<longrightarrow>
          SetEnabled w s =
            (s\<lparr>plgldr_context := (plgldr_context s)\<lparr>is_enabled := enabled\<rparr>,
               plugin_loader_enabled := enabled\<rparr>, RESULT_SUCCESS)) \<and>
       (\<not> permitted \<longrightarrow>
          SetEnabled w s = (s, ERR_NOT_AUTHORIZED) \<and>
          is_enabled (plgldr_context s) \<noteq> enabled \<and>
          (\<forall>n. ((\<lambda>t. fst (SetEnabled w t)) ^^ n) s = s)))"
proof -
  let ?permitted = "(w = 1) = is_enabled (plgldr_context s) \<or> allow_game_change s"
  have granted: "SetEnabled w s =
      (s\<lparr>plgldr_context := (plgldr_context s)\<lparr>is_enabled := (w = 1)\<rparr>,
         plugin_loader_enabled := (w = 1)\<rparr>, RESULT_SUCCESS)" if "?permitted"
    using that by (simp add: SetEnabled_def Let_def)
  have rejected: "SetEnabled w s = (s, ERR_NOT_AUTHORIZED)" if "\<not> ?permitted"
    using that by (simp add: SetEnabled_def Let_def)
  have repeated: "((\<lambda>t. fst (SetEnabled w t)) ^^ n) s = s" if "\<not> ?permitted" for n
    by (induction n) (simp_all add: rejected [OF that])
  have differs: "is_enabled (plgldr_context s) \<noteq> (w = 1)" if "\<not> ?permitted"
    using that by blast
  show ?thesis
    unfolding Let_def using granted rejected repeated differs by blast
qed

theorem SetEnabled_authorization_witness:
  "SetEnabled 0 example_system = (example_system, ERR_NOT_AUTHORIZED) \<and>
   fst (SetEnabled 0 (fst (SetEnabled 0 example_system))) = example_system \<and>
   snd (SetEnabled 1 example_system) = RESULT_SUCCESS"
  using SetEnabled_authorization [of 0 example_system]
        SetEnabled_authorization [of 1 example_system]
  by (simp add: example_system_def example_context_def Let_def numeral_2_eq_2)

subsection \<open>SetLoadSettings\<close>

lemma c_str_terminated: "c_str (xs @ NUL # ys) = c_str xs"
  by (induction xs) (simp_all add: c_str_def)

text \<open>What the handler returns when the \<open>path\<close> field has at least one byte: it never
  faults, and the new fields are the old ones overwritten from the front.\<close>

lemma SetLoadSettings_result:
  assumes "path (user_load_parameters (plgldr_context s)) \<noteq> []"
  shows "SetLoadSettings w1 w2 pb cb s =
     Inr (s\<lparr>plgldr_context :=
            (plgldr_context s)\<lparr>use_user_load_parameters := True,
              user_load_parameters :=
                (user_load_parameters (plgldr_context s))
                  \<lparr>no_flash := (w1 = 1), low_title_Id := w2,
                   path := (take (min (length (path (user_load_parameters (plgldr_context s))) - 1) (length pb)) pb @
                            drop (min (length (path (user_load_parameters (plgldr_context s))) - 1) (length pb))
                              (path (user_load_parameters (plgldr_context s))))
                           [min (length (path (user_load_parameters (plgldr_context s))) - 1) (length pb) := NUL],
                   config := take (min (length (config (user_load_parameters (plgldr_context s)))) (length cb)) cb @
                             drop (min (length (config (user_load_parameters (plgldr_context s)))) (length cb))
                               (config (user_load_parameters (plgldr_context s)))\<rparr>\<rparr>\<rparr>,
          RESULT_SUCCESS)"
proof -
  let ?p = "path (user_load_parameters (plgldr_context s))"
  from assms obtain k where k: "length ?p = Suc k"
    by (cases ?p) simp_all
  have n: "size_minus_1 (Suc k) = k"
    by (simp add: size_minus_1_def)
  have fits: "min k (length pb) < Suc k"
    by (simp add: min_def)
  show ?thesis
    using fits
    by (simp add: SetLoadSettings_def Let_def MappedBuffer_Read_def store_char_def n k)
qed

text \<open>
  Claim C5. Whatever the sizes of the two input buffers, \<^verbatim>\<open>SetLoadSettings\<close> answers
  success without a fault, that is, without a store outside the \<open>path\<close> or the
  \<open>config\<close> field: both fields keep their sizes. With \<open>n\<close> the smaller of the path
  field's size minus one and the input's size, the first \<open>n\<close> bytes of the field are the
  first \<open>n\<close> bytes of the input (the input is truncated to what fits), the byte at \<open>n\<close>
  is the terminator and lies inside the field, and the bytes behind it are untouched; read
  as a C string, the field is the truncated input. The \<open>config\<close> field receives as many
  input bytes as fit and keeps the rest. The one assumption is that the \<open>path\<close> field
  has at least one byte, as every array of the language has.
\<close>

theorem SetLoadSettings_bounded:
  assumes "path (user_load_parameters (plgldr_context s)) \<noteq> []"
  shows "\<exists>s'. SetLoadSettings w1 w2 pb cb s = Inr (s', RESULT_SUCCESS) \<and>
     (let p = user_load_parameters (plgldr_context s);
          p' = user_load_parameters (plgldr_context s');
          n = min (length (path p) - 1) (length pb);
          m = min (length (config p)) (length cb)
      in length (path p') = length (path p) \<and>
         length (config p') = length (config p) \<and>
         n < length (path p') \<and>
         take n (path p') = take n pb \<and>
         path p' ! n = NUL \<and>
         drop (Suc n) (path p') = drop (Suc n) (path p) \<and>
         c_str (path p') = c_str (take n pb) \<and>
         take m (config p') = take m cb \<and>
         drop m (config p') = drop m (config p))"
proof -
  let ?p = "user_load_parameters (plgldr_context s)"
  let ?n = "min (length (path ?p) - 1) (length pb)"
  let ?m = "min (length (config ?p)) (length cb)"
  let ?path' = "(take ?n pb @ drop ?n (path ?p))[?n := NUL]"
  let ?config' = "take ?m cb @ drop ?m (config ?p)"
  from assms obtain k where k: "length (path ?p) = Suc k"
    by (cases "path ?p") simp_all
  have n_less: "?n < length (path ?p)" by (simp add: k min_def)
  have n_pb: "?n \<le> length pb" by simp
  have len: "length ?path' = length (path ?p)"
    using n_less by simp
  have shape: "?path' = take ?n pb @ NUL # drop (Suc ?n) (path ?p)"
  proof -
    have "drop ?n (path ?p) = path ?p ! ?n # drop (Suc ?n) (path ?p)"
      using n_less by (simp add: Cons_nth_drop_Suc)
    moreover have "length (take ?n pb) = ?n" using n_pb by simp
    ultimately show ?thesis
      by (simp add: list_update_append)
  qed
  have l1: "length (take ?n pb) = ?n" using n_pb by simp
  have t: "take ?n ?path' = take ?n pb"
    unfolding shape using l1 by simp
  have nth: "?path' ! ?n = NUL"
    unfolding shape using l1 by (simp add: nth_append)
  have d: "drop (Suc ?n) ?path' = drop (Suc ?n) (path ?p)"
    unfolding shape using l1 by simp
  have cs: "c_str ?path' = c_str (take ?n pb)"
    unfolding shape by (rule c_str_terminated)
  have lc: "length ?config' = length (config ?p)" by simp
  have tc: "take ?m ?config' = take ?m cb" by simp
  have dc: "drop ?m ?config' = drop ?m (config ?p)" by simp
  show ?thesis
    unfolding SetLoadSettings_result [OF assms] Let_def
    apply (rule exI, rule conjI, rule refl)
    using len lc n_less t nth d cs tc dc
    apply simp
    done
qed

theorem SetLoadSettings_bounded_witness:
  "path (user_load_parameters (plgldr_context example_system)) \<noteq> [] \<and>
   SetLoadSettings 1 7 ''/plugin/long.3gx'' ''ab'' example_system =
     Inr (example_system\<lparr>plgldr_context := example_context
            \<lparr>use_user_load_parameters := True,
             user_load_parameters :=
               \<lparr>no_flash = True, low_title_Id = 7, path = ''/plugin'' @ [NUL],
                config = ''ab'' @ [NUL, NUL]\<rparr>\<rparr>\<rparr>, RESULT_SUCCESS)"
proof -
  have nonempty: "path (user_load_parameters (plgldr_context example_system)) \<noteq> []"
    by (simp add: example_system_def example_context_def example_parameters_def)
  show ?thesis
    using SetLoadSettings_bounded [OF nonempty, of 1 7 "''/plugin/long.3gx''" "''ab''"]
    by (simp add: SetLoadSettings_def MappedBuffer_Read_def store_char_def size_minus_1_def
        example_system_def example_context_def example_parameters_def)
qed

subsection \<open>OnProcessRun\<close>

lemma candidate_context_again [simp]:
  "candidate_context (candidate_context c e) e' = candidate_context c e'"
  by (simp add: candidate_context_def)

lemma Load_eq:
  "Load env s = (plugin_image env (plgldr_context s),
                 s\<lparr>plgldr_context := after_load env (plgldr_context s),
                   load_calls := load_calls s @ [plgldr_context s]\<rparr>)"
  by (simp add: Load_def after_load_def Let_def)

lemma try_children_trace:
  "try_children env children s =
     (let c = plgldr_context s;
          failed = (\<lambda>e. plugin_image env (candidate_context c e) \<noteq> Success);
          cands = filter is_3gx_file children
      in case dropWhile failed cands of
           [] \<Rightarrow>
             (False,
              s\<lparr>plgldr_context := (if cands = [] then c else candidate_context c (last cands)),
                load_calls := load_calls s @ map (candidate_context c) cands\<rparr>)
         | e # _ \<Rightarrow>
             (True,
              s\<lparr>plgldr_context := (candidate_context c e)\<lparr>plugin_loaded := True\<rparr>,
                load_calls := load_calls s @
                  map (candidate_context c) (takeWhile failed cands @ [e])\<rparr>))"
proof (induction children arbitrary: s)
  case Nil
  show ?case by simp
next
  case (Cons child children)
  show ?case
  proof (cases "is_3gx_file child")
    case False
    then show ?thesis using Cons.IH [of s] by simp
  next
    case cand: True
    let ?c = "plgldr_context s"
    let ?s1 = "s\<lparr>plgldr_context := candidate_context ?c child\<rparr>"
    show ?thesis
    proof (cases "plugin_image env (candidate_context ?c child) = Success")
      case True
      then show ?thesis
        using cand by (simp add: Load_eq after_load_def candidate_context_def Let_def)
    next
      case False
      let ?s2 = "s\<lparr>plgldr_context := candidate_context ?c child,
                   load_calls := load_calls s @ [candidate_context ?c child]\<rparr>"
      have step: "try_children env (child # children) s = try_children env children ?s2"
        using cand False
        by (simp add: Load_eq after_load_def candidate_context_def Let_def)
      show ?thesis
        unfolding step Cons.IH [of ?s2]
        using cand False
        by (cases "dropWhile (\<lambda>e. plugin_image env (candidate_context ?c e) \<noteq> Success)
                     (filter is_3gx_file children)")
           (simp_all add: Let_def del: dropWhile_eq_Nil_conv)
    qed
  qed
qed

lemma OnProcessRun_guarded:
  assumes "is_enabled (plgldr_context s)" and "\<not> plugin_loaded (plgldr_context s)"
    and "\<not> is_homebrew process"
  shows "OnProcessRun env process s =
     (if override_staged process (plgldr_context s) then
        s\<lparr>plgldr_context := after_load env (override_context env (plgldr_context s)),
          load_calls := load_calls s @ [override_context env (plgldr_context s)]\<rparr>
      else
        (let (returned, s1) =
               try_children env
                 (scan_dir env (sdmc_dir env @ ''luma/plugins/'' @ format_016X (program_id process))) s
         in if returned then s1
            else if file_exists env (sdmc_dir env @ ''luma/plugins/default.3gx'') then
              s1\<lparr>plgldr_context := after_load env (default_context env (plgldr_context s1)),
                 load_calls := load_calls s1 @ [default_context env (plgldr_context s1)]\<rparr>
            else s1))"
  using assms
  by (simp add: OnProcessRun_def Load_eq override_context_def default_context_def Let_def
      split: prod.splits)

text \<open>
  Claim C2. When the word at the code segment's base is \<open>0xEA000006\<close> and the word 32
  bytes later is \<open>0xE1A0400E\<close> (each four bytes read little-endian), \<^verbatim>\<open>OnProcessRun\<close>
  returns the state as it was: the loader is not called (\<open>load_calls\<close> is unchanged) and
  \<open>plugin_loaded\<close> keeps its value, so it stays false when it was false.
\<close>

theorem OnProcessRun_homebrew:
  assumes "read_u32_le process (code_segment_addr process) = 0xEA000006"
    and "read_u32_le process (code_segment_addr process + 32) = 0xE1A0400E"
  shows "OnProcessRun env process s = s \<and>
         load_calls (OnProcessRun env process s) = load_calls s \<and>
         plugin_loaded (plgldr_context (OnProcessRun env process s)) =
           plugin_loaded (plgldr_context s)"
proof -
  from assms have "is_homebrew process"
    by (simp add: is_homebrew_def)
  then have "OnProcessRun env process s = s"
    by (simp add: OnProcessRun_def)
  then show ?thesis by simp
qed

lemma homebrew_process_words:
  "read_u32_le homebrew_process (code_segment_addr homebrew_process) = 0xEA000006"
  "read_u32_le homebrew_process (code_segment_addr homebrew_process + 32) = 0xE1A0400E"
  by (simp_all add: read_u32_le_def homebrew_process_def)

theorem OnProcessRun_homebrew_witness:
  "read_u32_le homebrew_process (code_segment_addr homebrew_process) = 0xEA000006 \<and>
   read_u32_le homebrew_process (code_segment_addr homebrew_process + 32) = 0xE1A0400E \<and>
   is_enabled (plgldr_context staged_system) \<and>
   \<not> plugin_loaded (plgldr_context staged_system) \<and>
   OnProcessRun example_env homebrew_process staged_system = staged_system \<and>
   load_calls (OnProcessRun example_env homebrew_process staged_system) = []"
  using OnProcessRun_homebrew [OF homebrew_process_words, of example_env staged_system]
    homebrew_process_words
  by (simp add: staged_system_def example_system_def example_context_def)

text \<open>
  Against claim C3 as it is stated, for every launch with a matching override staged: with
  the plugin loader disabled, a launch for which an override is staged (flag set, title
  id equal to the low word of the program id, stored path \<open>/plugin\<close>) makes no load
  attempt at all: the first test of \<^verbatim>\<open>OnProcessRun\<close> returns before the override is
  looked at.
\<close>

theorem OnProcessRun_override_counterexample:
  "use_user_load_parameters (plgldr_context disabled_system) \<and>
   low_title_Id (user_load_parameters (plgldr_context disabled_system)) =
     ucast (program_id example_process) \<and>
   c_str (path (user_load_parameters (plgldr_context disabled_system))) = ''/plugin'' \<and>
   load_calls (OnProcessRun example_env example_process disabled_system) =
     load_calls disabled_system \<and>
   OnProcessRun example_env example_process disabled_system = disabled_system"
  by (simp add: OnProcessRun_def disabled_system_def staged_system_def example_system_def
      example_context_def example_process_def c_str_def NUL_def)

text \<open>
  Claim C3, for launches that pass the tests in front of the override: the plugin loader
  is enabled, no plugin is loaded yet and the process is not homebrew. If then
  \<open>use_user_load_parameters\<close> is set, the staged title id is the low 32 bits of the
  program id and the stored path is not empty, \<^verbatim>\<open>OnProcessRun\<close> calls the loader exactly
  once, with \<open>is_default_path\<close> false and the plugin path set to the storage root followed
  by the stored path from its second character on. The result is the same whatever the
  directory scan and the file-existence test would answer: discovery and the default path
  play no part, whether the load succeeds or fails.
\<close>

theorem OnProcessRun_override:
  assumes "is_enabled (plgldr_context s)" and "\<not> plugin_loaded (plgldr_context s)"
    and "\<not> is_homebrew process"
    and "use_user_load_parameters (plgldr_context s)"
    and "low_title_Id (user_load_parameters (plgldr_context s)) = ucast (program_id process)"
    and "c_str (path (user_load_parameters (plgldr_context s))) \<noteq> []"
  shows "(let c = plgldr_context s;
              attempt = c\<lparr>is_default_path := False,
                          plugin_path := sdmc_dir env @ c_str (tl (path (user_load_parameters c)))\<rparr>;
              s' = OnProcessRun env process s
          in load_calls s' = load_calls s @ [attempt] \<and>
             \<not> is_default_path (last (load_calls s')) \<and>
             plugin_path (last (load_calls s')) =
               sdmc_dir env @ c_str (tl (path (user_load_parameters c))) \<and>
             (\<forall>scan exists.
                OnProcessRun (env\<lparr>scan_dir := scan, file_exists := exists\<rparr>) process s = s'))"
proof -
  from assms(6) have "case path (user_load_parameters (plgldr_context s)) of
      [] \<Rightarrow> False | c0 # _ \<Rightarrow> c0 \<noteq> NUL"
    by (cases "path (user_load_parameters (plgldr_context s))") (auto simp: c_str_def)
  with assms(4,5) have staged: "override_staged process (plgldr_context s)"
    by (simp add: override_staged_def)
  have run: "OnProcessRun e process s =
      s\<lparr>plgldr_context := after_load e (override_context e (plgldr_context s)),
        load_calls := load_calls s @ [override_context e (plgldr_context s)]\<rparr>" for e
    using OnProcessRun_guarded [OF assms(1-3), of e] staged by simp
  show ?thesis
    unfolding Let_def run
    by (simp add: after_load_def override_context_def)
qed

theorem OnProcessRun_override_witness:
  "is_enabled (plgldr_context staged_system) \<and>
   \<not> plugin_loaded (plgldr_context staged_system) \<and>
   \<not> is_homebrew example_process \<and>
   use_user_load_parameters (plgldr_context staged_system) \<and>
   low_title_Id (user_load_parameters (plgldr_context staged_system)) =
     ucast (program_id example_process) \<and>
   c_str (path (user_load_parameters (plgldr_context staged_system))) = ''/plugin'' \<and>
   map plugin_path (load_calls (OnProcessRun example_env example_process staged_system)) =
     [''/sd/plugin''] \<and>
   map is_default_path (load_calls (OnProcessRun example_env example_process staged_system)) =
     [False]"
proof -
  have g1: "is_enabled (plgldr_context staged_system)"
    and g2: "\<not> plugin_loaded (plgldr_context staged_system)"
    and g4: "use_user_load_parameters (plgldr_context staged_system)"
    and g5: "low_title_Id (user_load_parameters (plgldr_context staged_system)) =
       ucast (program_id example_process)"
    by (simp_all add: staged_system_def example_system_def example_context_def
        example_process_def)
  have g3: "\<not> is_homebrew example_process"
    by (simp add: is_homebrew_def read_u32_le_def example_process_def)
  have str: "c_str (path (user_load_parameters (plgldr_context staged_system))) = ''/plugin''"
    by (simp add: staged_system_def example_system_def example_context_def c_str_def NUL_def)
  then have g6: "c_str (path (user_load_parameters (plgldr_context staged_system))) \<noteq> []"
    by simp
  have tl_str: "c_str (tl (path (user_load_parameters (plgldr_context staged_system)))) = ''plugin''"
    by (simp add: staged_system_def example_system_def example_context_def c_str_def NUL_def)
  have lc: "load_calls staged_system = []"
    by (simp add: staged_system_def example_system_def)
  show ?thesis
    using OnProcessRun_override [OF g1 g2 g3 g4 g5 g6, of example_env] g1 g2 g3 g4 g5 str tl_str
    by (simp add: Let_def example_env_def lc)
qed

text \<open>
  Claim C10. When \<^verbatim>\<open>OnProcessRun\<close> applies a staged override, the plugin path handed to
  the loader is the storage root followed by the stored path (read as a C string) without
  its first character. The first character is only tested against the terminator: any
  other non-zero first character gives the same path.
\<close>

theorem override_resolved_path:
  assumes "is_enabled (plgldr_context s)" and "\<not> plugin_loaded (plgldr_context s)"
    and "\<not> is_homebrew process"
    and "override_staged process (plgldr_context s)"
  shows "(let stored = path (user_load_parameters (plgldr_context s));
              handed = plugin_path (last (load_calls (OnProcessRun env process s)))
          in handed = sdmc_dir env @ tl (c_str stored) \<and>
             handed = sdmc_dir env @ c_str (tl stored) \<and>
             hd stored \<noteq> NUL \<and>
             (\<forall>c0. c0 \<noteq> NUL \<longrightarrow>
                plugin_path (last (load_calls (OnProcessRun env process
                  (s\<lparr>plgldr_context := (plgldr_context s)\<lparr>user_load_parameters :=
                       (user_load_parameters (plgldr_context s))\<lparr>path := c0 # tl stored\<rparr>\<rparr>\<rparr>)))) =
                handed))"
proof -
  let ?stored = "path (user_load_parameters (plgldr_context s))"
  from assms(4) obtain c rest where stored: "?stored = c # rest" and c: "c \<noteq> NUL"
    by (cases ?stored) (auto simp: override_staged_def)
  have tl_c_str: "tl (c_str ?stored) = c_str (tl ?stored)"
    using c by (simp add: stored c_str_def)
  have handed: "plugin_path (last (load_calls (OnProcessRun env process s))) =
      sdmc_dir env @ c_str (tl ?stored)"
    using OnProcessRun_guarded [OF assms(1-3), of env] assms(4)
    by (simp add: override_context_def)
  have other: "plugin_path (last (load_calls (OnProcessRun env process
        (s\<lparr>plgldr_context := (plgldr_context s)\<lparr>user_load_parameters :=
             (user_load_parameters (plgldr_context s))\<lparr>path := c0 # tl ?stored\<rparr>\<rparr>\<rparr>)))) =
      sdmc_dir env @ c_str (tl ?stored)" if "c0 \<noteq> NUL" for c0
  proof -
    let ?s = "s\<lparr>plgldr_context := (plgldr_context s)\<lparr>user_load_parameters :=
             (user_load_parameters (plgldr_context s))\<lparr>path := c0 # tl ?stored\<rparr>\<rparr>\<rparr>"
    have g: "is_enabled (plgldr_context ?s)" "\<not> plugin_loaded (plgldr_context ?s)"
      using assms(1,2) by simp_all
    have st: "override_staged process (plgldr_context ?s)"
      using assms(4) that by (simp add: override_staged_def)
    show ?thesis
      using OnProcessRun_guarded [OF g assms(3), of env] st
      by (simp add: override_context_def)
  qed
  show ?thesis
    unfolding Let_def using handed tl_c_str other c stored by simp
qed

theorem override_resolved_path_witness:
  "is_enabled (plgldr_context staged_system) \<and>
   \<not> plugin_loaded (plgldr_context staged_system) \<and>
   \<not> is_homebrew example_process \<and>
   override_staged example_process (plgldr_context staged_system) \<and>
   path (user_load_parameters (plgldr_context staged_system)) = ''/plugin'' @ [NUL] \<and>
   sdmc_dir example_env = ''/sd/'' \<and>
   plugin_path (last (load_calls (OnProcessRun example_env example_process staged_system))) =
     ''/sd/plugin''"
proof -
  have g1: "is_enabled (plgldr_context staged_system)"
    and g2: "\<not> plugin_loaded (plgldr_context staged_system)"
    and g4: "override_staged example_process (plgldr_context staged_system)"
    by (simp_all add: staged_system_def example_system_def example_context_def
        example_process_def override_staged_def NUL_def)
  have g3: "\<not> is_homebrew example_process"
    by (simp add: is_homebrew_def read_u32_le_def example_process_def)
  have stored: "path (user_load_parameters (plgldr_context staged_system)) = ''/plugin'' @ [NUL]"
    by (simp add: staged_system_def example_system_def example_context_def)
  have str: "c_str (''/plugin'' @ [NUL]) = ''/plugin''"
    by (simp add: c_str_def NUL_def)
  show ?thesis
    using override_resolved_path [OF g1 g2 g3 g4, of example_env] g1 g2 g3 g4
    unfolding Let_def stored str
    by (simp add: example_env_def)
qed

lemma discovery_outcome:
  fixes s :: System and env :: Env and children :: "FSTEntry list" and default_exists :: bool
  assumes "\<not> plugin_loaded (plgldr_context s)"
  defines "c \<equiv> plgldr_context s"
  defines "candidates \<equiv> filter is_3gx_file children"
  defines "failed \<equiv> (\<lambda>child. plugin_image env (candidate_context (plgldr_context s) child) \<noteq> Success)"
  defines "s' \<equiv> (let (returned, s1) = try_children env children s
       in if returned then s1
          else if default_exists then
            s1\<lparr>plgldr_context := after_load env (default_context env (plgldr_context s1)),
               load_calls := load_calls s1 @ [default_context env (plgldr_context s1)]\<rparr>
          else s1)"
  shows "load_calls s' =
           load_calls s @ map (candidate_context c) (takeWhile failed candidates) @
           (case dropWhile failed candidates of
              child # _ \<Rightarrow> [candidate_context c child]
            | [] \<Rightarrow> if default_exists then [default_context env c] else [])"
    and "plugin_loaded (plgldr_context s') =
           ((\<exists>child \<in> set candidates. \<not> failed child) \<or>
            (default_exists \<and> plugin_image env (default_context env c) = Success))"
proof -
  have dflt: "default_context env (candidate_context c e) = default_context env c" for e
    by (simp add: default_context_def candidate_context_def)
  have trace: "try_children env children s =
      (case dropWhile failed candidates of
         [] \<Rightarrow>
           (False,
            s\<lparr>plgldr_context := (if candidates = [] then c else candidate_context c (last candidates)),
              load_calls := load_calls s @ map (candidate_context c) candidates\<rparr>)
       | e # _ \<Rightarrow>
           (True,
            s\<lparr>plgldr_context := (candidate_context c e)\<lparr>plugin_loaded := True\<rparr>,
              load_calls := load_calls s @
                map (candidate_context c) (takeWhile failed candidates @ [e])\<rparr>))"
    unfolding try_children_trace [of env children s] Let_def c_def candidates_def failed_def ..
  have both: "load_calls s' =
           load_calls s @ map (candidate_context c) (takeWhile failed candidates) @
           (case dropWhile failed candidates of
              child # _ \<Rightarrow> [candidate_context c child]
            | [] \<Rightarrow> if default_exists then [default_context env c] else []) \<and>
         plugin_loaded (plgldr_context s') =
           ((\<exists>child \<in> set candidates. \<not> failed child) \<or>
            (default_exists \<and> plugin_image env (default_context env c) = Success))"
  proof (cases "dropWhile failed candidates")
    case Nil
    then have all_failed: "\<forall>child \<in> set candidates. failed child"
      by (simp only: dropWhile_eq_Nil_conv)
    then have tw: "takeWhile failed candidates = candidates"
      by (simp only: takeWhile_eq_all_conv)
    have not_loaded: "\<not> plugin_loaded c"
      using assms(1) by (simp add: c_def)
    then have nl: "\<not> plugin_loaded (if candidates = [] then c else candidate_context c (last candidates))"
      by (simp add: candidate_context_def)
    have d2: "default_context env (if candidates = [] then c else candidate_context c (last candidates)) =
        default_context env c"
      by (simp add: dflt)
    have pl: "plugin_loaded (after_load env (default_context env c)) =
        (plugin_image env (default_context env c) = Success)"
      using not_loaded by (simp add: after_load_def default_context_def)
    have s'_eq: "s' = (if default_exists then
          s\<lparr>plgldr_context := after_load env (default_context env c),
            load_calls := load_calls s @ map (candidate_context c) candidates @ [default_context env c]\<rparr>
        else s\<lparr>plgldr_context := (if candidates = [] then c else candidate_context c (last candidates)),
              load_calls := load_calls s @ map (candidate_context c) candidates\<rparr>)"
      unfolding s'_def trace Nil by (simp add: d2)
    show ?thesis
      unfolding s'_eq Nil tw using all_failed nl pl by simp
  next
    case (Cons e rest)
    have "e \<in> set (dropWhile failed candidates)"
      by (simp add: Cons)
    then have e_in: "e \<in> set candidates"
      by (rule set_dropWhileD)
    have e_ok: "\<not> failed e"
      using hd_dropWhile [of failed candidates] Cons by simp
    have s'_eq: "s' = s\<lparr>plgldr_context := (candidate_context c e)\<lparr>plugin_loaded := True\<rparr>,
                 load_calls := load_calls s @
                   map (candidate_context c) (takeWhile failed candidates @ [e])\<rparr>"
      unfolding s'_def trace Cons by simp
    show ?thesis
      unfolding s'_eq Cons using e_in e_ok by auto
  qed
  from both show "load_calls s' =
           load_calls s @ map (candidate_context c) (takeWhile failed candidates) @
           (case dropWhile failed candidates of
              child # _ \<Rightarrow> [candidate_context c child]
            | [] \<Rightarrow> if default_exists then [default_context env c] else [])" ..
  from both show "plugin_loaded (plgldr_context s') =
           ((\<exists>child \<in> set candidates. \<not> failed child) \<or>
            (default_exists \<and> plugin_image env (default_context env c) = Success))" ..
qed

text \<open>
  Claim C1. Consider a launch that reaches discovery: the plugin loader is enabled, no
  plugin is loaded, the process is not homebrew and no override is staged for it. The
  candidates are the children of the title's plugin directory that are not directories and
  whose name ends in \<open>.3gx\<close>, in the order of the scan. \<^verbatim>\<open>OnProcessRun\<close> calls the loader
  on the candidates in that order, each with \<open>is_default_path\<close> false, up to and including
  the first that loads, and on nothing after it. If no candidate loads, it then calls the
  loader on the default plugin path, provided that file exists, and makes no call
  otherwise. Afterwards \<open>plugin_loaded\<close> holds exactly if a candidate loaded or the default
  exists and loaded; so it is false when no candidate loaded and the default is absent or
  failed.
\<close>

theorem OnProcessRun_discovery:
  assumes "is_enabled (plgldr_context s)" and "\<not> plugin_loaded (plgldr_context s)"
    and "\<not> is_homebrew process"
    and "\<not> override_staged process (plgldr_context s)"
  shows "(let c = plgldr_context s;
              plugin_tid = sdmc_dir env @ ''luma/plugins/'' @ format_016X (program_id process);
              default_path = sdmc_dir env @ ''luma/plugins/default.3gx'';
              candidates = filter is_3gx_file (scan_dir env plugin_tid);
              failed = (\<lambda>child. plugin_image env (candidate_context c child) \<noteq> Success);
              s' = OnProcessRun env process s
          in load_calls s' =
               load_calls s @ map (candidate_context c) (takeWhile failed candidates) @
               (case dropWhile failed candidates of
                  child # _ \<Rightarrow> [candidate_context c child]
                | [] \<Rightarrow> if file_exists env default_path then [default_context env c] else []) \<and>
             plugin_loaded (plgldr_context s') =
               ((\<exists>child \<in> set candidates. \<not> failed child) \<or>
                (file_exists env default_path \<and>
                 plugin_image env (default_context env c) = Success)))"
proof -
  have run: "OnProcessRun env process s =
      (let (returned, s1) = try_children env
             (scan_dir env (sdmc_dir env @ ''luma/plugins/'' @ format_016X (program_id process))) s
       in if returned then s1
          else if file_exists env (sdmc_dir env @ ''luma/plugins/default.3gx'') then
            s1\<lparr>plgldr_context := after_load env (default_context env (plgldr_context s1)),
               load_calls := load_calls s1 @ [default_context env (plgldr_context s1)]\<rparr>
          else s1)"
    using OnProcessRun_guarded [OF assms(1-3), of env] assms(4) by simp
  show ?thesis
    unfolding Let_def run
    using discovery_outcome [OF assms(2), of env
        "scan_dir env (sdmc_dir env @ ''luma/plugins/'' @ format_016X (program_id process))"
        "file_exists env (sdmc_dir env @ ''luma/plugins/default.3gx'')"]
    unfolding Let_def by blast
qed

lemma example_tid:
  "''/sd/'' @ ''luma/plugins/'' @ format_016X (program_id example_process) =
   ''/sd/luma/plugins/0004000000000007''"
  by (simp add: format_016X_def hex_upper_def example_process_def upt_rec)

lemma example_candidates:
  "filter is_3gx_file example_children =
     [\<lparr>isDirectory = False, physicalName = ''/sd/luma/plugins/0004000000000007/a.3gx''\<rparr>,
      \<lparr>isDirectory = False, physicalName = ''/sd/luma/plugins/0004000000000007/b.3gx''\<rparr>,
      \<lparr>isDirectory = False, physicalName = ''/sd/luma/plugins/0004000000000007/c.3gx''\<rparr>]"
  by (simp add: example_children_def is_3gx_file_def ends_with_def)

theorem OnProcessRun_discovery_witness:
  "is_enabled (plgldr_context example_system) \<and>
   \<not> plugin_loaded (plgldr_context example_system) \<and>
   \<not> is_homebrew example_process \<and>
   \<not> override_staged example_process (plgldr_context example_system) \<and>
   map plugin_path (load_calls (OnProcessRun example_env example_process example_system)) =
     [''/sd/luma/plugins/0004000000000007/a.3gx'',
      ''/sd/luma/plugins/0004000000000007/b.3gx''] \<and>
   plugin_loaded (plgldr_context (OnProcessRun example_env example_process example_system)) \<and>
   map plugin_path (load_calls (OnProcessRun failing_env example_process example_system)) =
     [''/sd/luma/plugins/0004000000000007/a.3gx'',
      ''/sd/luma/plugins/0004000000000007/b.3gx'',
      ''/sd/luma/plugins/0004000000000007/c.3gx'',
      ''/sd/luma/plugins/default.3gx''] \<and>
   \<not> plugin_loaded (plgldr_context (OnProcessRun failing_env example_process example_system))"
proof -
  have g1: "is_enabled (plgldr_context example_system)"
    and g2: "\<not> plugin_loaded (plgldr_context example_system)"
    and g4: "\<not> override_staged example_process (plgldr_context example_system)"
    by (simp_all add: example_system_def example_context_def override_staged_def)
  have g3: "\<not> is_homebrew example_process"
    by (simp add: is_homebrew_def read_u32_le_def example_process_def)
  have lc: "load_calls example_system = []"
    by (simp add: example_system_def)
  have env: "sdmc_dir example_env = ''/sd/''" "sdmc_dir failing_env = ''/sd/''"
    "scan_dir example_env ''/sd/luma/plugins/0004000000000007'' = example_children"
    "scan_dir failing_env ''/sd/luma/plugins/0004000000000007'' = example_children"
    "file_exists example_env ''/sd/luma/plugins/default.3gx''"
    "file_exists failing_env ''/sd/luma/plugins/default.3gx''"
    "plugin_image failing_env = (\<lambda>c. Error)"
    "plugin_image example_env = (\<lambda>c. if plugin_path c = ''/sd/luma/plugins/0004000000000007/b.3gx''
                            \<or> plugin_path c = ''/sd/plugin''
                          then Success else Error)"
    by (simp_all add: example_env_def failing_env_def)
  show ?thesis
    using OnProcessRun_discovery [OF g1 g2 g3 g4, of example_env]
      OnProcessRun_discovery [OF g1 g2 g3 g4, of failing_env] g1 g2 g3 g4
    unfolding Let_def env example_tid example_candidates lc
    by (simp add: candidate_context_def default_context_def env)
qed

subsection \<open>GetPluginPath\<close>








subsection \<open>GetMemoryChangedHandle\<close>

lemma GetMemoryChangedHandle_existing:
  assumes "memory_changed_handle (plgldr_context s) \<noteq> 0"
  shows "GetMemoryChangedHandle env s = (Inr (memory_changed_handle (plgldr_context s)), s)"
  using assms by (simp add: GetMemoryChangedHandle_def)

lemma GetMemoryChangedHandle_stores:
  assumes "GetMemoryChangedHandle env s = (Inr h, s1)"
  shows "memory_changed_handle (plgldr_context s1) = h"
  using assms
  by (auto simp: GetMemoryChangedHandle_def CreateEvent_def HandleTable_Create_def Let_def
      split: if_splits sum.splits prod.splits)

lemma GetMemoryChangedHandle_creates:
  "length (events (snd (GetMemoryChangedHandle env s))) \<le> Suc (length (events s)) \<and>
   length (handle_table (snd (GetMemoryChangedHandle env s))) \<le> Suc (length (handle_table s))"
  by (auto simp: GetMemoryChangedHandle_def CreateEvent_def HandleTable_Create_def Let_def
      split: if_splits sum.splits prod.splits)

text \<open>
  Claim C7. Suppose a call of \<^verbatim>\<open>GetMemoryChangedHandle\<close> succeeds with the handle \<open>h\<close>.
  A handle is not zero: zero is what the context's field holds while there is no handle.
  Then the next call, in any environment, returns \<open>h\<close> again and leaves the whole state
  as it is: no event is created and no entry is added to the handle table. The same holds
  for every further call. The first call itself creates at most one event and at most one
  table entry, so the two calls together create at most one notification object.
\<close>

theorem GetMemoryChangedHandle_cached:
  assumes "GetMemoryChangedHandle env s = (Inr h, s1)" and "h \<noteq> 0"
  shows "GetMemoryChangedHandle env' s1 = (Inr h, s1) \<and>
         (\<forall>n. ((\<lambda>t. snd (GetMemoryChangedHandle env' t)) ^^ n) s1 = s1) \<and>
         events (snd (GetMemoryChangedHandle env' s1)) = events s1 \<and>
         handle_table (snd (GetMemoryChangedHandle env' s1)) = handle_table s1 \<and>
         length (events s1) \<le> Suc (length (events s)) \<and>
         length (handle_table s1) \<le> Suc (length (handle_table s))"
proof -
  have stored: "memory_changed_handle (plgldr_context s1) = h"
    using GetMemoryChangedHandle_stores [OF assms(1)] .
  with assms(2) have again: "GetMemoryChangedHandle env' s1 = (Inr h, s1)"
    using GetMemoryChangedHandle_existing [of s1 env'] by simp
  have repeated: "((\<lambda>t. snd (GetMemoryChangedHandle env' t)) ^^ n) s1 = s1" for n
    by (induction n) (simp_all add: again)
  have first: "length (events s1) \<le> Suc (length (events s)) \<and>
      length (handle_table s1) \<le> Suc (length (handle_table s))"
    using GetMemoryChangedHandle_creates [of env s] assms(1) by simp
  show ?thesis
    using again repeated first by simp
qed

theorem GetMemoryChangedHandle_cached_witness:
  "GetMemoryChangedHandle example_env example_system =
     (Inr 1, example_system\<lparr>plgldr_context := example_context\<lparr>memory_changed_handle := 1\<rparr>,
                            events := [''event-00100abc''],
                            handle_table := [(1, EventObject 0)]\<rparr>) \<and>
   GetMemoryChangedHandle failing_env
     (example_system\<lparr>plgldr_context := example_context\<lparr>memory_changed_handle := 1\<rparr>,
                      events := [''event-00100abc''],
                      handle_table := [(1, EventObject 0)]\<rparr>) =
     (Inr 1, example_system\<lparr>plgldr_context := example_context\<lparr>memory_changed_handle := 1\<rparr>,
                            events := [''event-00100abc''],
                            handle_table := [(1, EventObject 0)]\<rparr>)"
proof -
  have first: "GetMemoryChangedHandle example_env example_system =
     (Inr 1, example_system\<lparr>plgldr_context := example_context\<lparr>memory_changed_handle := 1\<rparr>,
                            events := [''event-00100abc''],
                            handle_table := [(1, EventObject 0)]\<rparr>)"
    by (simp add: GetMemoryChangedHandle_def CreateEvent_def HandleTable_Create_def
        example_env_def example_system_def example_context_def format_08x_def hex_lower_def
        upt_rec)
  have nz: "(1 :: u32) \<noteq> 0" by simp
  show ?thesis
    using GetMemoryChangedHandle_cached [OF first nz, of failing_env] first by simp
qed

subsection \<open>The invariant of the context\<close>

lemma is_3gx_file_name: "is_3gx_file child \<Longrightarrow> physicalName child \<noteq> []"
  by (auto simp: is_3gx_file_def ends_with_def)

lemma after_load_path: "plugin_path (after_load env c) = plugin_path c"
  by (simp add: after_load_def)

lemma try_children_loaded_has_path:
  assumes "\<not> plugin_loaded (plgldr_context s)"
  shows "loaded_has_path (snd (try_children env children s))"
proof -
  let ?c = "plgldr_context s"
  let ?failed = "\<lambda>e. plugin_image env (candidate_context ?c e) \<noteq> Success"
  let ?cands = "filter is_3gx_file children"
  show ?thesis
  proof (cases "dropWhile ?failed ?cands")
    case Nil
    have "\<not> plugin_loaded (if ?cands = [] then ?c else candidate_context ?c (last ?cands))"
      using assms by (simp add: candidate_context_def)
    then show ?thesis
      unfolding try_children_trace [of env children s] Let_def Nil
      by (simp add: loaded_has_path_def)
  next
    case (Cons e rest)
    have "e \<in> set (dropWhile ?failed ?cands)"
      by (simp add: Cons)
    then have "e \<in> set ?cands"
      by (rule set_dropWhileD)
    then have "is_3gx_file e" by simp
    then have "physicalName e \<noteq> []" by (rule is_3gx_file_name)
    then show ?thesis
      unfolding try_children_trace [of env children s] Let_def Cons
      by (simp add: loaded_has_path_def candidate_context_def)
  qed
qed

lemma OnProcessRun_loaded_has_path:
  assumes "sdmc_dir env \<noteq> []" and "loaded_has_path s"
  shows "loaded_has_path (OnProcessRun env process s)"
proof (cases "is_enabled (plgldr_context s) \<and> \<not> plugin_loaded (plgldr_context s) \<and>
    \<not> is_homebrew process")
  case False
  then have "OnProcessRun env process s = s"
    by (auto simp: OnProcessRun_def)
  with assms(2) show ?thesis by simp
next
  case True
  then have g: "is_enabled (plgldr_context s)" "\<not> plugin_loaded (plgldr_context s)"
    "\<not> is_homebrew process" by simp_all
  show ?thesis
  proof (cases "override_staged process (plgldr_context s)")
    case True
    with assms(1) show ?thesis
      unfolding OnProcessRun_guarded [OF g, of env]
      by (simp add: loaded_has_path_def after_load_path override_context_def)
  next
    case False
    define children where
      "children = scan_dir env (sdmc_dir env @ ''luma/plugins/'' @ format_016X (program_id process))"
    define default_exists where
      "default_exists = file_exists env (sdmc_dir env @ ''luma/plugins/default.3gx'')"
    have run: "OnProcessRun env process s =
        (let (returned, s1) = try_children env children s
         in if returned then s1
            else if default_exists then
              s1\<lparr>plgldr_context := after_load env (default_context env (plgldr_context s1)),
                 load_calls := load_calls s1 @ [default_context env (plgldr_context s1)]\<rparr>
            else s1)"
      using OnProcessRun_guarded [OF g, of env] False
      unfolding children_def default_exists_def by simp
    obtain returned s1 where tc: "try_children env children s = (returned, s1)"
      by (cases "try_children env children s")
    have inv1: "loaded_has_path s1"
      using try_children_loaded_has_path [OF g(2), of env children] tc by simp
    have dflt: "loaded_has_path
        (s1\<lparr>plgldr_context := after_load env (default_context env (plgldr_context s1)),
            load_calls := load_calls s1 @ [default_context env (plgldr_context s1)]\<rparr>)"
      by (simp add: loaded_has_path_def after_load_path default_context_def)
    show ?thesis
      unfolding run tc using inv1 dflt by simp
  qed
qed

lemma loaded_has_path_fields:
  "plugin_loaded (plgldr_context s') = plugin_loaded (plgldr_context s) \<Longrightarrow>
   plugin_path (plgldr_context s') = plugin_path (plgldr_context s) \<Longrightarrow>
   loaded_has_path s' = loaded_has_path s"
  by (simp add: loaded_has_path_def)

lemma OnProcessExit_fields:
  "plugin_loaded (plgldr_context (OnProcessExit env process s)) = plugin_loaded (plgldr_context s)"
  "plugin_path (plgldr_context (OnProcessExit env process s)) = plugin_path (plgldr_context s)"
  by (simp_all add: OnProcessExit_def Let_def)

lemma OnMemoryChanged_fields:
  "plugin_loaded (plgldr_context (OnMemoryChanged process s)) = plugin_loaded (plgldr_context s)"
  "plugin_path (plgldr_context (OnMemoryChanged process s)) = plugin_path (plgldr_context s)"
  by (simp_all add: OnMemoryChanged_def split: option.splits)

lemma GetMemoryChangedHandle_fields:
  "plugin_loaded (plgldr_context (snd (GetMemoryChangedHandle env s))) =
     plugin_loaded (plgldr_context s)"
  "plugin_path (plgldr_context (snd (GetMemoryChangedHandle env s))) =
     plugin_path (plgldr_context s)"
  by (simp_all add: GetMemoryChangedHandle_def CreateEvent_def HandleTable_Create_def Let_def
      split: sum.splits prod.splits)

lemma SetEnabled_fields:
  "plugin_loaded (plgldr_context (fst (SetEnabled w s))) = plugin_loaded (plgldr_context s)"
  "plugin_path (plgldr_context (fst (SetEnabled w s))) = plugin_path (plgldr_context s)"
  by (simp_all add: SetEnabled_def Let_def)

lemma SetLoadSettings_fields:
  assumes "SetLoadSettings w1 w2 pb cb s = Inr (s', r)"
  shows "plugin_loaded (plgldr_context s') = plugin_loaded (plgldr_context s)"
    and "plugin_path (plgldr_context s') = plugin_path (plgldr_context s)"
  using assms
  by (auto simp: SetLoadSettings_def Let_def split: sum.splits)

lemma DisplayErrorMessage_fields:
  "plgldr_context (fst (DisplayErrorMessage e t d s)) = plgldr_context s"
  by (simp add: DisplayErrorMessage_def Let_def)

lemma GetPluginPath_state:
  assumes "GetPluginPath env b s = Inr (s', r, b')"
  shows "s' = s"
  using assms by (auto simp: GetPluginPath_def Let_def split: sum.splits)

lemma step_loaded_has_path:
  assumes "sdmc_dir env \<noteq> []" and "loaded_has_path s" and "step env call s = Some s'"
  shows "loaded_has_path s'"
proof (cases call)
  case Construct
  with assms(3) show ?thesis by (auto simp: PLG_LDR_def loaded_has_path_def)
next
  case (ProcessRun p)
  with assms show ?thesis using OnProcessRun_loaded_has_path [of env s p] by auto
next
  case (ProcessExit p)
  with assms(2,3) show ?thesis
    using loaded_has_path_fields [OF OnProcessExit_fields, of env p s] by auto
next
  case (MemoryChanged p)
  with assms(2,3) show ?thesis
    using loaded_has_path_fields [OF OnMemoryChanged_fields, of p s] by auto
next
  case MemoryChangedHandle
  with assms(2,3) show ?thesis
    using loaded_has_path_fields [OF GetMemoryChangedHandle_fields, of env s] by auto
next
  case CmdIsEnabled
  with assms(2,3) show ?thesis by (auto simp: IsEnabled_def)
next
  case (CmdSetEnabled w)
  with assms(2,3) show ?thesis
    using loaded_has_path_fields [OF SetEnabled_fields, of w s] by auto
next
  case (CmdSetLoadSettings w1 w2 pb cb)
  with assms(3) obtain r where "SetLoadSettings w1 w2 pb cb s = Inr (s', r)"
    by (auto split: sum.splits)
  from loaded_has_path_fields [OF SetLoadSettings_fields [OF this]] assms(2)
  show ?thesis by simp
next
  case (CmdDisplayErrorMessage e t d)
  with assms(2,3) show ?thesis
    by (auto simp: DisplayErrorMessage_fields loaded_has_path_def)
next
  case CmdGetPLGLDRVersion
  with assms(2,3) show ?thesis by (auto simp: GetPLGLDRVersion_def)
next
  case CmdGetArbiter
  with assms(2,3) show ?thesis by (auto simp: GetArbiter_def)
next
  case (CmdGetPluginPath b)
  with assms(3) obtain r b' where "GetPluginPath env b s = Inr (s', r, b')"
    by (auto split: sum.splits)
  from GetPluginPath_state [OF this] assms(2) show ?thesis by simp
qed

lemma run_loaded_has_path:
  assumes "\<forall>(env, call) \<in> set history. sdmc_dir env \<noteq> []"
    and "loaded_has_path s" and "run history s = Some t"
  shows "loaded_has_path t"
  using assms
proof (induction history arbitrary: s)
  case Nil
  then show ?case by simp
next
  case (Cons ec history)
  obtain env call where ec: "ec = (env, call)" by (cases ec)
  from Cons.prems(3) obtain s' where s': "step env call s = Some s'"
    and rest: "run history s' = Some t"
    by (auto simp: ec split: option.splits)
  from Cons.prems(1) have env: "sdmc_dir env \<noteq> []" by (simp add: ec)
  have "loaded_has_path s'"
    using step_loaded_has_path [OF env Cons.prems(2) s'] .
  moreover from Cons.prems(1) have "\<forall>(env, call) \<in> set history. sdmc_dir env \<noteq> []"
    by simp
  ultimately show ?case
    using Cons.IH rest by blast
qed

text \<open>
  Claim C8. After the constructor \<open>plugin_loaded\<close> is false, so the invariant
  ``\<open>plugin_loaded\<close> implies a non-empty \<open>plugin_path\<close>'' holds. Every call into the
  service (the constructor, the three lifecycle hooks, the handle request and the seven
  request handlers) that returns preserves it, and so it holds after every history of
  calls. The storage root handed out by the file utilities is taken to be a non-empty
  path. The loader is the one modelled from the specification: it leaves the plugin path
  alone and sets \<open>plugin_loaded\<close> only when it reports success.
\<close>

theorem plugin_loaded_has_path:
  "(\<not> plugin_loaded (plgldr_context (PLG_LDR s0))) \<and>
   loaded_has_path (PLG_LDR s0) \<and>
   (sdmc_dir env \<noteq> [] \<and> loaded_has_path s \<and> step env call s = Some s' \<longrightarrow>
      loaded_has_path s') \<and>
   ((\<forall>(e, c) \<in> set history. sdmc_dir e \<noteq> []) \<and> run history (PLG_LDR s0) = Some t \<longrightarrow>
      (plugin_loaded (plgldr_context t) \<longrightarrow> plugin_path (plgldr_context t) \<noteq> []))"
proof -
  have init: "\<not> plugin_loaded (plgldr_context (PLG_LDR s0))"
    by (simp add: PLG_LDR_def)
  then have inv0: "loaded_has_path (PLG_LDR s0)"
    by (simp add: loaded_has_path_def)
  have runs: "plugin_loaded (plgldr_context t) \<longrightarrow> plugin_path (plgldr_context t) \<noteq> []"
    if "(\<forall>(e, c) \<in> set history. sdmc_dir e \<noteq> []) \<and> run history (PLG_LDR s0) = Some t"
    using run_loaded_has_path [of history "PLG_LDR s0" t] that inv0
    by (simp add: loaded_has_path_def)
  show ?thesis
    using init inv0 step_loaded_has_path [of env s call s'] runs by blast
qed

lemma example_history_run:
  "map_option (\<lambda>t. (plugin_loaded (plgldr_context t), plugin_path (plgldr_context t),
                      map plugin_path (load_calls t)))
     (run example_history (PLG_LDR example_system)) =
   Some (True, ''/sd/plugin'', [''/sd/plugin''])"
  by (simp add: example_history_def PLG_LDR_def example_system_def example_context_def
      example_parameters_def SetLoadSettings_def MappedBuffer_Read_def store_char_def
      size_minus_1_def OnProcessRun_def is_homebrew_def read_u32_le_def example_process_def
      override_staged_def Load_def example_env_def failing_env_def c_str_def NUL_def
      SetEnabled_def OnProcessExit_def Let_def)

theorem plugin_loaded_has_path_witness:
  "sdmc_dir example_env \<noteq> [] \<and> sdmc_dir failing_env \<noteq> [] \<and>
   map_option (\<lambda>t. (plugin_loaded (plgldr_context t), plugin_path (plgldr_context t),
                      map plugin_path (load_calls t)))
     (run example_history (PLG_LDR example_system)) =
   Some (True, ''/sd/plugin'', [''/sd/plugin''])"
proof -
  have envs: "\<forall>(e, c) \<in> set example_history. sdmc_dir e \<noteq> []"
    by (simp add: example_history_def example_env_def failing_env_def)
  from example_history_run obtain t where t: "run example_history (PLG_LDR example_system) = Some t"
    by auto
  have "plugin_loaded (plgldr_context t) \<longrightarrow> plugin_path (plgldr_context t) \<noteq> []"
    using plugin_loaded_has_path [of example_system example_env example_system Construct
        "PLG_LDR example_system" example_history t] envs t
    by blast
  with example_history_run show ?thesis
    by (simp add: example_env_def failing_env_def)
qed

subsection \<open>GetPluginPath on the paths the service assigns\<close>










end
